theory Spec2Isabelle
  imports Main "HOL-Library.Word" "HOL-Library.AList"
begin

section \<open>JavaScript values used by the component\<close>

text \<open>
  A JavaScript string is a sequence of UTF-16 code units. String literals of the source
  are ASCII and are written with \<open>ascii\<close>.
\<close>

type_synonym jsstring = "16 word list"

definition ascii :: "string \<Rightarrow> jsstring" where
  "ascii s = map (\<lambda>c. of_nat (of_char c)) s"

text \<open>
  Runtime values: what \<open>response.json()\<close> can produce, and \<open>undefined\<close>. A number is
  kept as its IEEE 754 binary64 bit pattern; an object is its own properties in
  insertion order, with distinct keys.
\<close>

datatype jsval =
    Undefined
  | Null
  | Bool bool
  | Num "64 word"
  | Str jsstring
  | Arr "jsval list"
  | Obj "(jsstring \<times> jsval) list"

datatype js_error = URIError | SyntaxError | TypeError

section \<open>The built-in \<open>encodeURIComponent\<close>\<close>

text \<open>
  The ECMAScript built-in (abstract operation Encode with the unreserved set of
  \<open>encodeURIComponent\<close>): letters, digits and \<open>- _ . ! ~ * ' ( )\<close> are copied, every
  other code point is written as its UTF-8 octets, each as \<open>%XX\<close> in upper-case
  hexadecimal, and a surrogate code unit without its partner throws URIError.
\<close>

definition uriUnescaped :: "16 word \<Rightarrow> bool" where
  "uriUnescaped c =
     ((0x41 \<le> c \<and> c \<le> 0x5A) \<or> (0x61 \<le> c \<and> c \<le> 0x7A) \<or> (0x30 \<le> c \<and> c \<le> 0x39)
      \<or> c = 0x2D \<or> c = 0x5F \<or> c = 0x2E \<or> c = 0x21 \<or> c = 0x7E
      \<or> c = 0x2A \<or> c = 0x27 \<or> c = 0x28 \<or> c = 0x29)"

definition isLeadingSurrogate :: "16 word \<Rightarrow> bool" where
  "isLeadingSurrogate c = (0xD800 \<le> c \<and> c \<le> 0xDBFF)"

definition isTrailingSurrogate :: "16 word \<Rightarrow> bool" where
  "isTrailingSurrogate c = (0xDC00 \<le> c \<and> c \<le> 0xDFFF)"

definition UTF16SurrogatePairToCodePoint :: "16 word \<Rightarrow> 16 word \<Rightarrow> nat" where
  "UTF16SurrogatePairToCodePoint lead trail =
     (unat lead - 0xD800) * 0x400 + (unat trail - 0xDC00) + 0x10000"

definition utf8Encode :: "nat \<Rightarrow> nat list" where
  "utf8Encode cp =
     (if cp < 0x80 then [cp]
      else if cp < 0x800 then [0xC0 + cp div 0x40, 0x80 + cp mod 0x40]
      else if cp < 0x10000 then
        [0xE0 + cp div 0x1000, 0x80 + (cp div 0x40) mod 0x40, 0x80 + cp mod 0x40]
      else
        [0xF0 + cp div 0x40000, 0x80 + (cp div 0x1000) mod 0x40,
         0x80 + (cp div 0x40) mod 0x40, 0x80 + cp mod 0x40])"

definition hexDigit :: "nat \<Rightarrow> 16 word" where
  "hexDigit d = (if d < 10 then of_nat (0x30 + d) else of_nat (0x41 + (d - 10)))"

definition percentEncode :: "nat \<Rightarrow> jsstring" where
  "percentEncode octet = [0x25, hexDigit (octet div 16), hexDigit (octet mod 16)]"

definition escapeCodePoint :: "nat \<Rightarrow> jsstring" where
  "escapeCodePoint cp = concat (map percentEncode (utf8Encode cp))"

fun andThen :: "jsstring \<Rightarrow> js_error + jsstring \<Rightarrow> js_error + jsstring" where
  "andThen out (Inl e) = Inl e"
| "andThen out (Inr rest) = Inr (out @ rest)"

fun encodeURIComponent :: "jsstring \<Rightarrow> js_error + jsstring" where
  "encodeURIComponent [] = Inr []"
| "encodeURIComponent (c # cs) =
     (if uriUnescaped c then andThen [c] (encodeURIComponent cs)
      else if isTrailingSurrogate c then Inl URIError
      else if isLeadingSurrogate c then
        (case cs of
           [] \<Rightarrow> Inl URIError
         | d # ds \<Rightarrow>
             if isTrailingSurrogate d
             then andThen (escapeCodePoint (UTF16SurrogatePairToCodePoint c d))
                    (encodeURIComponent ds)
             else Inl URIError)
      else andThen (escapeCodePoint (unat c)) (encodeURIComponent cs))"

text \<open>A string is well formed when every surrogate code unit is part of a pair.\<close>

fun isWellFormed :: "jsstring \<Rightarrow> bool" where
  "isWellFormed [] = True"
| "isWellFormed (c # cs) =
     (if isTrailingSurrogate c then False
      else if isLeadingSurrogate c then
        (case cs of [] \<Rightarrow> False | d # ds \<Rightarrow> isTrailingSurrogate d \<and> isWellFormed ds)
      else isWellFormed cs)"

section \<open>Property access and truthiness\<close>

text \<open>
  \<open>ToBoolean\<close>: undefined, null, false, the empty string, and the numbers +0, -0 and NaN
  are falsy; every other value, every array and object included, is truthy.
\<close>

definition isZeroOrNaN :: "64 word \<Rightarrow> bool" where
  "isZeroOrNaN w =
     (and w 0x7FFFFFFFFFFFFFFF = 0 \<or> 0x7FF0000000000000 < and w 0x7FFFFFFFFFFFFFFF)"

fun ToBoolean :: "jsval \<Rightarrow> bool" where
  "ToBoolean Undefined = False"
| "ToBoolean Null = False"
| "ToBoolean (Bool b) = b"
| "ToBoolean (Num w) = (\<not> isZeroOrNaN w)"
| "ToBoolean (Str s) = (s \<noteq> [])"
| "ToBoolean (Arr vs) = True"
| "ToBoolean (Obj kvs) = True"

text \<open>
  \<open>v.name\<close> for the two names the component reads, \<open>clientPrincipal\<close> and
  \<open>userDetails\<close>: an own property of an object, and undefined on every other value
  (no built-in prototype has these names). Reading a property of undefined or null
  throws TypeError. \<open>v?.name\<close> is undefined there instead.
\<close>

fun GetV :: "jsval \<Rightarrow> jsstring \<Rightarrow> js_error + jsval" where
  "GetV Undefined name = Inl TypeError"
| "GetV Null name = Inl TypeError"
| "GetV (Obj kvs) name = (case map_of kvs name of None \<Rightarrow> Inr Undefined | Some v \<Rightarrow> Inr v)"
| "GetV v name = Inr Undefined"

definition optionalChain :: "jsval \<Rightarrow> jsstring \<Rightarrow> js_error + jsval" where
  "optionalChain v name = (if v = Undefined \<or> v = Null then Inr Undefined else GetV v name)"

fun hasProperty :: "jsval \<Rightarrow> jsstring \<Rightarrow> bool" where
  "hasProperty (Obj kvs) name = (map_of kvs name \<noteq> None)"
| "hasProperty v name = False"

section \<open>The data model of auth.ts\<close>

definition loginRoute :: jsstring where
  "loginRoute = ascii ''/.auth/login''"

definition logoutRoute :: jsstring where
  "logoutRoute = ascii ''/.auth/logout''"

definition userDetailsRoute :: jsstring where
  "userDetailsRoute = ascii ''/.auth/me''"

record AuthDetails =
  identityProvider :: jsstring
  userId :: jsstring
  userDetails :: jsstring
  userRoles :: "jsstring list"
  claims :: "(jsstring \<times> jsstring) list"

record AuthStrings =
  loginButton :: jsstring
  logoutButton :: jsstring

text \<open>The field \<open>id\<close> of the source is \<open>id_provider\<close> here.\<close>

record AuthProvider =
  id_provider :: jsstring
  label :: jsstring
  icon :: jsstring
  color :: jsstring
  textColor :: jsstring

record AuthOptions =
  strings :: AuthStrings
  providers :: "AuthProvider list"

text \<open>The imported asset files, whose contents are not part of auth.ts.\<close>

record assets =
  personSvg :: jsstring
  logoutSvg :: jsstring
  microsoftSvg :: jsstring
  githubSvg :: jsstring

definition authProvider :: "string \<Rightarrow> string \<Rightarrow> jsstring \<Rightarrow> string \<Rightarrow> string \<Rightarrow> AuthProvider" where
  "authProvider i l ic c t =
     \<lparr>id_provider = ascii i, label = ascii l, icon = ic, color = ascii c, textColor = ascii t\<rparr>"

definition defaultOptions :: "assets \<Rightarrow> AuthOptions" where
  "defaultOptions a =
     \<lparr>strings = \<lparr>loginButton = ascii ''Log in'', logoutButton = ascii ''Log out''\<rparr>,
      providers =
        [authProvider ''aad'' ''Sign in with Microsoft'' (microsoftSvg a) ''#00A4EF'' ''#fff'',
         authProvider ''github'' ''Sign in with GitHub'' (githubSvg a) ''#181717'' ''#fff'',
         authProvider ''google'' ''Sign in with Google''
           (ascii ''https://cdn.simpleicons.org/google/white'') ''#4285f4'' ''#fff'',
         authProvider ''facebook'' ''Sign in with Facebook''
           (ascii ''https://cdn.simpleicons.org/facebook/white'') ''#0866ff'' ''#fff'',
         authProvider ''apple'' ''Sign in with Apple''
           (ascii ''https://cdn.simpleicons.org/apple/white'') ''#000'' ''#fff'',
         authProvider ''twitter'' ''Sign in with X''
           (ascii ''https://cdn.simpleicons.org/x/white'') ''#000'' ''#fff'',
         authProvider ''oidc'' ''Sign in with OpenID Connect''
           (ascii ''https://cdn.simpleicons.org/openid/white'') ''#333'' ''#fff'']\<rparr>"

text \<open>
  The component: its reactive properties and state. \<open>type\<close> holds whatever the host
  page set; \<open>_userDetails\<close> (\<open>priv_userDetails\<close> here) holds whatever the fetch
  delivered, since the payload is untyped.
\<close>

record AuthComponent =
  options :: AuthOptions
  type :: jsval
  loginRedirect :: jsstring
  logoutRedirect :: jsstring
  priv_userDetails :: jsval
  loaded :: bool

text \<open>
  The component with the part of the browser it acts on: \<open>window.location.href\<close> and
  the requests passed to \<open>fetch\<close>, oldest first.
\<close>

record page = AuthComponent +
  location_href :: jsstring
  fetched :: "jsstring list"

section \<open>Templates\<close>

text \<open>
  What an \<open>html\<close> template literal evaluates to: its elements with their static text and
  the values bound into it, before Lit writes them to the DOM. White space between
  elements is left out. A \<open>@click\<close> listener is one of the two closures of the source,
  \<open>() => this.onLoginClicked(provider.id)\<close> and \<open>() => this.onLogoutClicked()\<close>.
\<close>

datatype listener = LoginClick jsstring | LogoutClick

datatype binding =
    Static string
  | Bound jsstring
  | StyleMap "(string \<times> jsstring) list"

datatype template =
    Element string "(string \<times> binding) list" "listener option" "template list"
  | Text string
  | Child jsval
  | UnsafeSVG jsstring
  | Html "template list"
  | Nothing

text \<open>The \<open>button\<close> elements of a template, in document order, and its static texts.\<close>

fun buttons :: "template \<Rightarrow> template list" where
  "buttons (Element tag attrs click children) =
     (if tag = ''button'' then [Element tag attrs click children]
      else concat (map buttons children))"
| "buttons (Html roots) = concat (map buttons roots)"
| "buttons t = []"

fun texts :: "template \<Rightarrow> string list" where
  "texts (Element tag attrs click children) = concat (map texts children)"
| "texts (Html roots) = concat (map texts roots)"
| "texts (Text s) = [s]"
| "texts t = []"

fun onclick :: "template \<Rightarrow> listener option" where
  "onclick (Element tag attrs click children) = click"
| "onclick t = None"

section \<open>The component's operations\<close>

definition get_userDetails :: "'a AuthComponent_scheme \<Rightarrow> jsval" where
  "get_userDetails this = priv_userDetails this"

definition onLoginClicked :: "jsstring \<Rightarrow> page \<Rightarrow> js_error + page" where
  "onLoginClicked provider this =
     (case encodeURIComponent (loginRedirect this) of
        Inl e \<Rightarrow> Inl e
      | Inr encoded \<Rightarrow>
          (let redirect =
                 loginRoute @ ascii ''/'' @ provider @ ascii ''?post_login_redirect_uri='' @ encoded
           in Inr (this\<lparr>location_href := redirect\<rparr>)))"

definition onLogoutClicked :: "page \<Rightarrow> js_error + page" where
  "onLogoutClicked this =
     (case encodeURIComponent (logoutRedirect this) of
        Inl e \<Rightarrow> Inl e
      | Inr encoded \<Rightarrow>
          (let redirect = logoutRoute @ ascii ''?post_logout_redirect_uri='' @ encoded
           in Inr (this\<lparr>location_href := redirect\<rparr>)))"

text \<open>Running a \<open>@click\<close> listener.\<close>

fun fire :: "listener \<Rightarrow> page \<Rightarrow> js_error + page" where
  "fire (LoginClick provider) this = onLoginClicked provider this"
| "fire LogoutClick this = onLogoutClicked this"

definition renderStatus :: "assets \<Rightarrow> 'a AuthComponent_scheme \<Rightarrow> js_error + template" where
  "renderStatus a this =
     (case (if ToBoolean (priv_userDetails this)
            then (case GetV (priv_userDetails this) (ascii ''userDetails'') of
                    Inl e \<Rightarrow> Inl e
                  | Inr name \<Rightarrow>
                      Inr (Html [Element ''p'' [] None [Text ''Logged in as '', Child name],
                                 Element ''button'' [] (Some LogoutClick) [Text ''Logout'']]))
            else Inr Nothing) of
        Inl e \<Rightarrow> Inl e
      | Inr user \<Rightarrow>
          Inr (Html [Element ''section'' [(''class'', Static ''auth-status'')] None
            [Element ''span'' [(''class'', Static ''login-icon'')] None
               [UnsafeSVG (personSvg a)],
             user]]))"

definition loginButtonTemplate :: "AuthProvider \<Rightarrow> template" where
  "loginButtonTemplate provider =
     (let providerStyle = [(''backgroundColor'', color provider), (''color'', textColor provider)]
      in Html [Element ''button''
           [(''class'', Static ''login''), (''style'', StyleMap providerStyle)]
           (Some (LoginClick (id_provider provider)))
           [Element ''img'' [(''src'', Bound (icon provider)), (''alt'', Static [])] None [],
            Element ''span'' [] None [Child (Str (label provider))]]])"

definition renderLogin :: "'a AuthComponent_scheme \<Rightarrow> js_error + template" where
  "renderLogin this =
     (if ToBoolean (get_userDetails this) then Inr (Html [Element ''slot'' [] None []])
      else
        Inr (Html [Element ''section'' [(''class'', Static ''auth-login'')] None
          (map loginButtonTemplate (providers (options this)))]))"

definition renderLogout :: "assets \<Rightarrow> js_error + template" where
  "renderLogout a =
     Inr (Html [Element ''button'' [(''class'', Static ''logout''), (''title'', Static ''log out'')]
       (Some LogoutClick) [UnsafeSVG (logoutSvg a)]])"

definition render :: "assets \<Rightarrow> 'a AuthComponent_scheme \<Rightarrow> js_error + template" where
  "render a this =
     (if type this = Str (ascii ''status'') then renderStatus a this
      else if type this = Str (ascii ''logout'') then renderLogout a
      else renderLogin this)"

section \<open>Construction and the user-info request\<close>

text \<open>
  A promise ends rejected or fulfilled with a value. \<open>fetch\<close> ends with a response, whose
  \<open>json()\<close> is a promise of the parsed payload.
\<close>

datatype 'a settled = Rejected | Fulfilled 'a

type_synonym response = "jsval settled"

text \<open>
  \<open>getUserInfo\<close> up to its first \<open>await\<close>: the call of \<open>fetch(userDetailsRoute)\<close>. The
  rest of the function runs when the request has settled.
\<close>

definition getUserInfo :: "page \<Rightarrow> page" where
  "getUserInfo this = this\<lparr>fetched := fetched this @ [userDetailsRoute]\<rparr>"

definition getUserInfo_resume :: "response settled \<Rightarrow> jsval settled" where
  "getUserInfo_resume fetchResult =
     (case fetchResult of
        Rejected \<Rightarrow> Rejected
      | Fulfilled response \<Rightarrow>
          (case response of
             Rejected \<Rightarrow> Rejected
           | Fulfilled payload \<Rightarrow>
               (case optionalChain payload (ascii ''clientPrincipal'') of
                  Inl e \<Rightarrow> Rejected
                | Inr clientPrincipal \<Rightarrow> Fulfilled clientPrincipal)))"

text \<open>
  The constructor: the field initialisers, then the call of \<open>getUserInfo\<close>. The browser's
  location is a parameter. \<open>constructor_then\<close> is the promise chain once the request has
  settled: the callback runs on fulfilment only, and there is no rejection handler.
\<close>

definition constructor :: "assets \<Rightarrow> jsstring \<Rightarrow> page" where
  "constructor a href =
     getUserInfo
       \<lparr>options = defaultOptions a, type = Str (ascii ''login''),
        loginRedirect = ascii ''/'', logoutRedirect = ascii ''/'',
        priv_userDetails = Undefined, loaded = False,
        location_href = href, fetched = []\<rparr>"

definition constructor_then :: "response settled \<Rightarrow> page \<Rightarrow> page" where
  "constructor_then fetchResult this =
     (case getUserInfo_resume fetchResult of
        Rejected \<Rightarrow> this
      | Fulfilled details \<Rightarrow> this\<lparr>priv_userDetails := details, loaded := True\<rparr>)"

section \<open>The component's lifetime\<close>

text \<open>
  What can happen to a constructed component: a call of one of its methods, a click on the
  n-th button of its current rendering, or the host page writing one of its public
  properties. An exception thrown by a method or listener leaves the state as it was.
\<close>

datatype operation =
    CallRender
  | CallRenderStatus
  | CallRenderLogin
  | CallRenderLogout
  | CallOnLoginClicked jsstring
  | CallOnLogoutClicked
  | ReadUserDetails
  | ClickButton nat
  | SetOptions AuthOptions
  | SetType jsval
  | SetLoginRedirect jsstring
  | SetLogoutRedirect jsstring

definition orUnchanged :: "page \<Rightarrow> js_error + page \<Rightarrow> page" where
  "orUnchanged this r = (case r of Inl e \<Rightarrow> this | Inr this' \<Rightarrow> this')"

definition clickButton :: "assets \<Rightarrow> nat \<Rightarrow> page \<Rightarrow> js_error + page" where
  "clickButton a n this =
     (case render a this of
        Inl e \<Rightarrow> Inl e
      | Inr t \<Rightarrow>
          if n < length (buttons t)
          then (case onclick (buttons t ! n) of None \<Rightarrow> Inr this | Some l \<Rightarrow> fire l this)
          else Inr this)"

fun perform :: "assets \<Rightarrow> operation \<Rightarrow> page \<Rightarrow> page" where
  "perform a CallRender this = (case render a this of Inl e \<Rightarrow> this | Inr t \<Rightarrow> this)"
| "perform a CallRenderStatus this = (case renderStatus a this of Inl e \<Rightarrow> this | Inr t \<Rightarrow> this)"
| "perform a CallRenderLogin this = (case renderLogin this of Inl e \<Rightarrow> this | Inr t \<Rightarrow> this)"
| "perform a CallRenderLogout this = (case renderLogout a of Inl e \<Rightarrow> this | Inr t \<Rightarrow> this)"
| "perform a (CallOnLoginClicked provider) this = orUnchanged this (onLoginClicked provider this)"
| "perform a CallOnLogoutClicked this = orUnchanged this (onLogoutClicked this)"
| "perform a ReadUserDetails this = (case get_userDetails this of v \<Rightarrow> this)"
| "perform a (ClickButton n) this = orUnchanged this (clickButton a n this)"
| "perform a (SetOptions v) this = this\<lparr>options := v\<rparr>"
| "perform a (SetType v) this = this\<lparr>type := v\<rparr>"
| "perform a (SetLoginRedirect v) this = this\<lparr>loginRedirect := v\<rparr>"
| "perform a (SetLogoutRedirect v) this = this\<lparr>logoutRedirect := v\<rparr>"

fun run :: "assets \<Rightarrow> operation list \<Rightarrow> page \<Rightarrow> page" where
  "run a [] this = this"
| "run a (op # ops) this = run a ops (perform a op this)"

text \<open>
  A lifetime: construction, some operations, and, if the request settles, its outcome and
  the operations after it.
\<close>

definition lifetime ::
  "assets \<Rightarrow> jsstring \<Rightarrow> operation list \<Rightarrow> (response settled \<times> operation list) option \<Rightarrow> page" where
  "lifetime a href before settling =
     (case settling of
        None \<Rightarrow> run a before (constructor a href)
      | Some (fetchResult, after) \<Rightarrow>
          run a after (constructor_then fetchResult (run a before (constructor a href))))"

section \<open>The converter of the \<open>options\<close> attribute\<close>

text \<open>The typed options as the runtime object they are.\<close>

definition AuthProvider_value :: "AuthProvider \<Rightarrow> jsval" where
  "AuthProvider_value p =
     Obj [(ascii ''id'', Str (id_provider p)), (ascii ''label'', Str (label p)),
          (ascii ''icon'', Str (icon p)), (ascii ''color'', Str (color p)),
          (ascii ''textColor'', Str (textColor p))]"

definition AuthOptions_value :: "AuthOptions \<Rightarrow> jsval" where
  "AuthOptions_value opts =
     Obj [(ascii ''strings'',
           Obj [(ascii ''loginButton'', Str (loginButton (strings opts))),
                (ascii ''logoutButton'', Str (logoutButton (strings opts)))]),
          (ascii ''providers'', Arr (map AuthProvider_value (providers opts)))]"

text \<open>
  Object spread copies the own enumerable properties of its operand, in order, onto the
  object being built; a later property of the same name replaces the value. An array has
  its indices as property names, a string its code units, and undefined, null, a boolean
  and a number have none.
\<close>

fun indexKey :: "nat \<Rightarrow> jsstring" where
  "indexKey n = (if n < 10 then [of_nat (0x30 + n)] else indexKey (n div 10) @ [of_nat (0x30 + n mod 10)])"

fun ownProperties :: "jsval \<Rightarrow> (jsstring \<times> jsval) list" where
  "ownProperties (Obj kvs) = kvs"
| "ownProperties (Arr vs) = zip (map indexKey [0..<length vs]) vs"
| "ownProperties (Str s) = zip (map indexKey [0..<length s]) (map (\<lambda>c. Str [c]) s)"
| "ownProperties v = []"

definition CopyDataProperties :: "(jsstring \<times> jsval) list \<Rightarrow> jsval \<Rightarrow> (jsstring \<times> jsval) list" where
  "CopyDataProperties target source =
     fold (\<lambda>(k, v) obj. AList.update k v obj) (ownProperties source) target"

text \<open>
  \<open>(value) => ({ ...defaultOptions, ...JSON.parse(value || '{}') })\<close>, where \<open>value\<close> is
  the attribute's string or null. \<open>JSON.parse\<close> is the platform's and is a parameter.
\<close>

definition converter ::
  "(jsstring \<Rightarrow> js_error + jsval) \<Rightarrow> assets \<Rightarrow> jsstring option \<Rightarrow> js_error + jsval" where
  "converter JSON_parse a value =
     (let text = (case value of None \<Rightarrow> ascii ''{}'' | Some s \<Rightarrow> if s = [] then ascii ''{}'' else s)
      in case JSON_parse text of
           Inl e \<Rightarrow> Inl e
         | Inr parsed \<Rightarrow>
             Inr (Obj (CopyDataProperties
                         (CopyDataProperties [] (AuthOptions_value (defaultOptions a)))
                         parsed)))"

section \<open>Example inputs\<close>

definition exampleAssets :: assets where
  "exampleAssets =
     \<lparr>personSvg = ascii ''<svg id=person />'', logoutSvg = ascii ''<svg id=logout />'',
      microsoftSvg = ascii ''data:image/svg+xml,microsoft'',
      githubSvg = ascii ''data:image/svg+xml,github''\<rparr>"

definition examplePage :: page where
  "examplePage = constructor exampleAssets (ascii ''https://example.org/'')"

text \<open>The declared type of the user details, as the runtime object it describes.\<close>

definition AuthDetails_value :: "AuthDetails \<Rightarrow> jsval" where
  "AuthDetails_value d =
     Obj [(ascii ''identityProvider'', Str (identityProvider d)),
          (ascii ''userId'', Str (userId d)),
          (ascii ''userDetails'', Str (userDetails d)),
          (ascii ''userRoles'', Arr (map Str (userRoles d))),
          (ascii ''claims'',
           Arr (map (\<lambda>(t, v). Obj [(ascii ''typ'', Str t), (ascii ''val'', Str v)]) (claims d)))]"

definition exampleDetails :: AuthDetails where
  "exampleDetails =
     \<lparr>identityProvider = ascii ''github'', userId = ascii ''d75b260a64504067bfc5b2905e3b8182'',
      userDetails = ascii ''octocat'',
      userRoles = [ascii ''anonymous'', ascii ''authenticated''],
      claims = [(ascii ''name'', ascii ''The Octocat'')]\<rparr>"

text \<open>
  The example page once \<open>/.auth/me\<close> has answered: with a signed-in user, and with
  \<open>{"clientPrincipal": null}\<close>, the answer for a visitor who is not signed in.
\<close>

definition loggedInPage :: page where
  "loggedInPage =
     constructor_then
       (Fulfilled (Fulfilled (Obj [(ascii ''clientPrincipal'', AuthDetails_value exampleDetails)])))
       examplePage"

definition anonymousPage :: page where
  "anonymousPage =
     constructor_then (Fulfilled (Fulfilled (Obj [(ascii ''clientPrincipal'', Null)]))) examplePage"

text \<open>
  The answers of \<open>JSON.parse\<close> on the two attribute texts of the examples. Any other
  text is answered with SyntaxError here; the examples do not use one.
\<close>

definition partialOptionsText :: jsstring where
  \<open>partialOptionsText = ascii ''{"strings":{"loginButton":"Sign in"}}''\<close>

definition exampleParse :: "jsstring \<Rightarrow> js_error + jsval" where
  "exampleParse s =
     (if s = ascii ''{}'' then Inr (Obj [])
      else if s = partialOptionsText
      then Inr (Obj [(ascii ''strings'', Obj [(ascii ''loginButton'', Str (ascii ''Sign in''))])])
      else Inl SyntaxError)"

section \<open>Properties of \<open>encodeURIComponent\<close>\<close>

lemma hexDigit_unescaped: "d < 16 \<Longrightarrow> uriUnescaped (hexDigit d)"
proof -
  assume "d < 16"
  then have "d \<in> {0,1,2,3,4,5,6,7,8,9,10,11,12,13,14,15}" by simp arith
  then show ?thesis
    by (auto simp: hexDigit_def uriUnescaped_def)
qed

lemma percentEncode_safe:
  "octet < 256 \<Longrightarrow> list_all (\<lambda>c. uriUnescaped c \<or> c = 0x25) (percentEncode octet)"
  by (simp add: percentEncode_def hexDigit_unescaped less_mult_imp_div_less)

lemma utf8Encode_octets: "cp < 0x110000 \<Longrightarrow> list_all (\<lambda>b. b < 256) (utf8Encode cp)"
  by (auto simp: utf8Encode_def) 

lemma escapeCodePoint_safe:
  assumes "cp < 0x110000"
  shows "list_all (\<lambda>c. uriUnescaped c \<or> c = 0x25) (escapeCodePoint cp)"
proof -
  have "\<forall>b \<in> set (utf8Encode cp). list_all (\<lambda>c. uriUnescaped c \<or> c = 0x25) (percentEncode b)"
    using utf8Encode_octets [OF assms] percentEncode_safe unfolding list_all_iff by blast
  then show ?thesis
    unfolding escapeCodePoint_def list_all_iff by auto
qed

lemma pair_bound: "isLeadingSurrogate c \<Longrightarrow> isTrailingSurrogate d \<Longrightarrow> UTF16SurrogatePairToCodePoint c d < 0x110000"
  by (simp add: isLeadingSurrogate_def isTrailingSurrogate_def UTF16SurrogatePairToCodePoint_def word_le_nat_alt)
    arith

lemma unit_bound: "unat (c :: 16 word) < 0x110000"
  using unsigned_less [of c, where 'a = nat] by simp

lemma andThen_Inr: "andThen out r = Inr e \<longleftrightarrow> (\<exists>rest. r = Inr rest \<and> e = out @ rest)"
  by (cases r) auto

lemma encodeURIComponent_safe:
  "encodeURIComponent r = Inr e \<Longrightarrow> list_all (\<lambda>c. uriUnescaped c \<or> c = 0x25) e"
proof (induction r arbitrary: e rule: encodeURIComponent.induct)
  case 1
  then show ?case by simp
next
  case (2 c cs)
  show ?case
  proof (cases "uriUnescaped c")
    case True
    with "2.prems" obtain rest where rest: "encodeURIComponent cs = Inr rest" "e = [c] @ rest"
      by (auto simp: andThen_Inr)
    from "2.IH"(1) [OF True rest(1)] True rest(2) show ?thesis by simp
  next
    case nu: False
    show ?thesis
    proof (cases "isTrailingSurrogate c")
      case True
      with nu "2.prems" show ?thesis by simp
    next
      case nt: False
      show ?thesis
      proof (cases "isLeadingSurrogate c")
        case lead: True
        show ?thesis
        proof (cases cs)
          case Nil
          with nu nt lead "2.prems" show ?thesis by simp
        next
          case (Cons d ds)
          show ?thesis
          proof (cases "isTrailingSurrogate d")
            case trail: True
            with nu nt lead Cons "2.prems" obtain rest where
              rest: "encodeURIComponent ds = Inr rest"
                "e = escapeCodePoint (UTF16SurrogatePairToCodePoint c d) @ rest"
              by (auto simp: andThen_Inr)
            from "2.IH"(2) [OF nu nt lead Cons trail rest(1)]
              escapeCodePoint_safe [OF pair_bound [OF lead trail]] rest(2)
            show ?thesis by simp
          next
            case False
            with nu nt lead Cons "2.prems" show ?thesis by simp
          qed
        qed
      next
        case nl: False
        with nu nt "2.prems" obtain rest where
          rest: "encodeURIComponent cs = Inr rest" "e = escapeCodePoint (unat c) @ rest"
          by (auto simp: andThen_Inr)
        from "2.IH"(3) [OF nu nt nl rest(1)] escapeCodePoint_safe [OF unit_bound [of c]] rest(2)
        show ?thesis by simp
      qed
    qed
  qed
qed

lemma surrogate_escaped:
  "isLeadingSurrogate c \<or> isTrailingSurrogate c \<Longrightarrow> \<not> uriUnescaped c"
  by (auto simp: isLeadingSurrogate_def isTrailingSurrogate_def uriUnescaped_def word_le_nat_alt)

lemma andThen_defined: "\<exists>rest. r = Inr rest \<Longrightarrow> \<exists>e. andThen out r = Inr e"
  by auto

lemma encodeURIComponent_defined:
  "isWellFormed r \<Longrightarrow> \<exists>e. encodeURIComponent r = Inr e"
proof (induction r rule: isWellFormed.induct)
  case 1
  then show ?case by simp
next
  case (2 c cs)
  show ?case
  proof (cases "isLeadingSurrogate c \<and> \<not> isTrailingSurrogate c")
    case True
    with "2.prems" obtain d ds where cs: "cs = d # ds" and d: "isTrailingSurrogate d" and wf: "isWellFormed ds"
      by (cases cs) auto
    from "2.IH"(1) [OF _ _ cs wf] True obtain e where "encodeURIComponent ds = Inr e" by auto
    with True cs d surrogate_escaped [of c] show ?thesis by simp
  next
    case False
    with "2.prems" have nt: "\<not> isTrailingSurrogate c" and nl: "\<not> isLeadingSurrogate c" and wf: "isWellFormed cs"
      by (auto split: if_splits)
    from "2.IH"(2) [OF nt nl wf] obtain e where "encodeURIComponent cs = Inr e" by auto
    with nt nl show ?thesis by simp
  qed
qed

lemma andThen_Inl: "andThen out r = Inl e \<longleftrightarrow> r = Inl e"
  by (cases r) auto

lemma encodeURIComponent_error: "encodeURIComponent r = Inl e \<Longrightarrow> e = URIError \<and> \<not> isWellFormed r"
proof (induction r rule: isWellFormed.induct)
  case 1
  then show ?case by simp
next
  case (2 c cs)
  show ?case
  proof (cases "isTrailingSurrogate c")
    case True
    with "2.prems" surrogate_escaped [of c] show ?thesis by simp
  next
    case nt: False
    show ?thesis
    proof (cases "isLeadingSurrogate c")
      case lead: True
      then have nu: "\<not> uriUnescaped c"
        by (simp add: surrogate_escaped)
      show ?thesis
      proof (cases cs)
        case Nil
        with nu nt lead "2.prems" show ?thesis by simp
      next
        case (Cons d ds)
        show ?thesis
        proof (cases "isTrailingSurrogate d")
          case True
          with nu nt lead Cons "2.prems" have "encodeURIComponent ds = Inl e"
            by (simp add: andThen_Inl)
          from "2.IH"(1) [OF nt lead Cons this] nt lead Cons show ?thesis by simp
        next
          case False
          with nu nt lead Cons "2.prems" show ?thesis by simp
        qed
      qed
    next
      case nl: False
      with nt "2.prems" have "encodeURIComponent cs = Inl e"
        by (simp add: andThen_Inl split: if_splits)
      from "2.IH"(2) [OF nt nl this] nt nl show ?thesis by simp
    qed
  qed
qed

lemma GetV_truthy: "ToBoolean v \<Longrightarrow> \<exists>x. GetV v name = Inr x"
  by (cases v) (auto split: option.splits)

lemma encodeURIComponent_slash: "encodeURIComponent (ascii ''/'') = Inr (ascii ''%2F'')"
  by (simp add: ascii_def uriUnescaped_def isTrailingSurrogate_def isLeadingSurrogate_def
      escapeCodePoint_def utf8Encode_def percentEncode_def hexDigit_def)

lemma isWellFormed_slash: "isWellFormed (ascii ''/'')"
  by (simp add: ascii_def isTrailingSurrogate_def isLeadingSurrogate_def)

section \<open>Facts about the templates and the example pages\<close>

lemma renderStatus_truthy:
  "ToBoolean (priv_userDetails this) \<Longrightarrow>
   \<exists>name. GetV (priv_userDetails this) (ascii ''userDetails'') = Inr name \<and>
     renderStatus a this =
       Inr (Html [Element ''section'' [(''class'', Static ''auth-status'')] None
         [Element ''span'' [(''class'', Static ''login-icon'')] None [UnsafeSVG (personSvg a)],
          Html [Element ''p'' [] None [Text ''Logged in as '', Child name],
                Element ''button'' [] (Some LogoutClick) [Text ''Logout'']]]])"
  using GetV_truthy [of "priv_userDetails this" "ascii ''userDetails''"]
  by (auto simp: renderStatus_def)

lemma renderStatus_falsy:
  "\<not> ToBoolean (priv_userDetails this) \<Longrightarrow>
   renderStatus a this =
     Inr (Html [Element ''section'' [(''class'', Static ''auth-status'')] None
       [Element ''span'' [(''class'', Static ''login-icon'')] None [UnsafeSVG (personSvg a)],
        Nothing]])"
  by (simp add: renderStatus_def)

lemma buttons_loginButtonTemplate:
  "concat (map buttons (map loginButtonTemplate ps)) =
     map (\<lambda>p. Element ''button''
                 [(''class'', Static ''login''),
                  (''style'', StyleMap [(''backgroundColor'', color p), (''color'', textColor p)])]
                 (Some (LoginClick (id_provider p)))
                 [Element ''img'' [(''src'', Bound (icon p)), (''alt'', Static [])] None [],
                  Element ''span'' [] None [Child (Str (label p))]]) ps"
  by (induction ps) (simp_all add: loginButtonTemplate_def)

lemma constructor_then_fields:
  "options (constructor_then r this) = options this"
  "type (constructor_then r this) = type this"
  "loginRedirect (constructor_then r this) = loginRedirect this"
  "logoutRedirect (constructor_then r this) = logoutRedirect this"
  "location_href (constructor_then r this) = location_href this"
  "fetched (constructor_then r this) = fetched this"
  by (simp_all add: constructor_then_def split: settled.splits)

lemma examplePage_fields:
  "options examplePage = defaultOptions exampleAssets"
  "type examplePage = Str (ascii ''login'')"
  "loginRedirect examplePage = ascii ''/''"
  "logoutRedirect examplePage = ascii ''/''"
  "priv_userDetails examplePage = Undefined"
  "loaded examplePage = False"
  by (simp_all add: examplePage_def constructor_def getUserInfo_def)

lemma loggedInPage_fields:
  "options loggedInPage = defaultOptions exampleAssets"
  "type loggedInPage = Str (ascii ''login'')"
  "loginRedirect loggedInPage = ascii ''/''"
  "logoutRedirect loggedInPage = ascii ''/''"
  by (simp_all add: loggedInPage_def constructor_then_fields examplePage_fields)

lemma loggedInPage_userDetails: "priv_userDetails loggedInPage = AuthDetails_value exampleDetails"
  by (simp add: loggedInPage_def constructor_then_def getUserInfo_resume_def optionalChain_def)

lemma anonymousPage_userDetails: "priv_userDetails anonymousPage = Null"
  by (simp add: anonymousPage_def constructor_then_def getUserInfo_resume_def optionalChain_def)

lemma anonymousPage_options: "options anonymousPage = defaultOptions exampleAssets"
  by (simp add: anonymousPage_def constructor_then_fields examplePage_fields)

section \<open>What the operations leave unchanged\<close>

lemma onLoginClicked_frame:
  "onLoginClicked p this = Inr this' \<Longrightarrow> \<exists>href. this' = this\<lparr>location_href := href\<rparr>"
  by (auto simp: onLoginClicked_def Let_def split: sum.splits)

lemma onLogoutClicked_frame:
  "onLogoutClicked this = Inr this' \<Longrightarrow> \<exists>href. this' = this\<lparr>location_href := href\<rparr>"
  by (auto simp: onLogoutClicked_def Let_def split: sum.splits)

lemma fire_frame:
  "fire l this = Inr this' \<Longrightarrow> \<exists>href. this' = this\<lparr>location_href := href\<rparr>"
  by (cases l) (auto dest: onLoginClicked_frame onLogoutClicked_frame)

lemma clickButton_frame:
  "clickButton a n this = Inr this' \<Longrightarrow> \<exists>href. this' = this\<lparr>location_href := href\<rparr>"
proof -
  have self: "\<exists>href. this = this\<lparr>location_href := href\<rparr>"
    by (rule exI [of _ "location_href this"]) simp
  assume "clickButton a n this = Inr this'"
  then show ?thesis
    using self by (auto simp: clickButton_def split: sum.splits if_splits option.splits dest: fire_frame)
qed

lemma orUnchanged_frame:
  "(\<And>this'. r = Inr this' \<Longrightarrow> \<exists>href. this' = this\<lparr>location_href := href\<rparr>) \<Longrightarrow>
   \<exists>href. orUnchanged this r = this\<lparr>location_href := href\<rparr>"
proof (cases r)
  case (Inl e)
  have "this = this\<lparr>location_href := location_href this\<rparr>" by simp
  with Inl show ?thesis unfolding orUnchanged_def by (auto intro: exI [of _ "location_href this"])
next
  case (Inr x)
  assume "\<And>this'. r = Inr this' \<Longrightarrow> \<exists>href. this' = this\<lparr>location_href := href\<rparr>"
  with Inr show ?thesis by (simp add: orUnchanged_def)
qed

lemma perform_frame:
  "priv_userDetails (perform a op this) = priv_userDetails this
   \<and> loaded (perform a op this) = loaded this
   \<and> fetched (perform a op this) = fetched this"
proof (cases op)
  case (CallOnLoginClicked p)
  from orUnchanged_frame [of "onLoginClicked p this" this] onLoginClicked_frame [of p this]
  obtain href where "orUnchanged this (onLoginClicked p this) = this\<lparr>location_href := href\<rparr>"
    by blast
  with CallOnLoginClicked show ?thesis by simp
next
  case CallOnLogoutClicked
  from orUnchanged_frame [of "onLogoutClicked this" this] onLogoutClicked_frame [of this]
  obtain href where "orUnchanged this (onLogoutClicked this) = this\<lparr>location_href := href\<rparr>"
    by blast
  with CallOnLogoutClicked show ?thesis by simp
next
  case (ClickButton n)
  from orUnchanged_frame [of "clickButton a n this" this] clickButton_frame [of a n this]
  obtain href where "orUnchanged this (clickButton a n this) = this\<lparr>location_href := href\<rparr>"
    by blast
  with ClickButton show ?thesis by simp
qed (simp_all split: sum.splits)

lemma run_frame:
  "priv_userDetails (run a ops this) = priv_userDetails this
   \<and> loaded (run a ops this) = loaded this
   \<and> fetched (run a ops this) = fetched this"
  by (induction ops arbitrary: this) (simp_all add: perform_frame)

lemma optionalChain_total: "\<exists>v. optionalChain p name = Inr v"
  by (cases p) (auto simp: optionalChain_def split: option.splits)

lemma optionalChain_absent:
  "p = Null \<or> p = Undefined \<or> \<not> hasProperty p name \<Longrightarrow> optionalChain p name = Inr Undefined"
  by (cases p) (auto simp: optionalChain_def split: option.splits)

lemma constructor_state:
  "priv_userDetails (constructor a href) = Undefined"
  "loaded (constructor a href) = False"
  "fetched (constructor a href) = [ascii ''/.auth/me'']"
  "location_href (constructor a href) = href"
  by (simp_all add: constructor_def getUserInfo_def userDetailsRoute_def)

lemma fetched_lifetime: "fetched (lifetime a href before settling) = [ascii ''/.auth/me'']"
  by (cases settling)
     (auto simp: lifetime_def run_frame constructor_then_fields constructor_state)

lemma getUserInfo_resume_payload:
  "\<exists>v. optionalChain p (ascii ''clientPrincipal'') = Inr v
     \<and> getUserInfo_resume (Fulfilled (Fulfilled p)) = Fulfilled v"
  using optionalChain_total [of p "ascii ''clientPrincipal''"]
  by (auto simp: getUserInfo_resume_def)

lemma lifetime_settled:
  "priv_userDetails (lifetime a href before (Some (r, after))) =
     priv_userDetails (constructor_then r (run a before (constructor a href)))"
  "loaded (lifetime a href before (Some (r, after))) =
     loaded (constructor_then r (run a before (constructor a href)))"
  by (simp_all add: lifetime_def run_frame)

lemma constructor_then_fulfilled:
  "getUserInfo_resume r = Fulfilled v \<Longrightarrow>
   priv_userDetails (constructor_then r this) = v \<and> loaded (constructor_then r this) = True"
  by (simp add: constructor_then_def)

lemma constructor_then_rejected:
  "getUserInfo_resume r = Rejected \<Longrightarrow> constructor_then r this = this"
  by (simp add: constructor_then_def)

section \<open>Object spread\<close>

lemma map_of_CopyDataProperties:
  "map_of (CopyDataProperties target source) k =
     (case map_of (rev (ownProperties source)) k of
        Some x \<Rightarrow> Some x
      | None \<Rightarrow> map_of target k)"
proof -
  have "map_of (fold (\<lambda>(k, v) obj. AList.update k v obj) kvs target) k =
     (case map_of (rev kvs) k of Some x \<Rightarrow> Some x | None \<Rightarrow> map_of target k)"
    for kvs
  proof (induction kvs arbitrary: target)
    case Nil
    then show ?case by simp
  next
    case (Cons kv kvs)
    obtain k' v' where kv: "kv = (k', v')" by (cases kv)
    show ?case
      by (simp add: kv Cons.IH update_conv' map_add_def split: option.splits)
  qed
  then show ?thesis by (simp add: CopyDataProperties_def)
qed

lemma CopyDataProperties_empty: "CopyDataProperties target (Obj []) = target"
  by (simp add: CopyDataProperties_def)

lemma keys_differ: "ascii ''strings'' \<noteq> ascii ''providers''"
  by (simp add: ascii_def)

lemma CopyDataProperties_defaults:
  "CopyDataProperties [] (AuthOptions_value opts) = ownProperties (AuthOptions_value opts)"
  using keys_differ by (simp add: CopyDataProperties_def AuthOptions_value_def)

lemma CopyDataProperties_strings:
  "CopyDataProperties (ownProperties (AuthOptions_value opts)) (Obj [(ascii ''strings'', v)]) =
     [(ascii ''strings'', v), (ascii ''providers'', Arr (map AuthProvider_value (providers opts)))]"
  by (simp add: CopyDataProperties_def AuthOptions_value_def)

lemma converter_eq:
  "converter JSON_parse a value =
     (case JSON_parse (case value of None \<Rightarrow> ascii ''{}'' | Some s \<Rightarrow> if s = [] then ascii ''{}'' else s) of
        Inl e \<Rightarrow> Inl e
      | Inr parsed \<Rightarrow>
          Inr (Obj (CopyDataProperties (ownProperties (AuthOptions_value (defaultOptions a))) parsed)))"
  by (simp add: converter_def CopyDataProperties_defaults Let_def split: sum.splits)


lemma exampleParse_empty: "exampleParse (ascii ''{}'') = Inr (Obj [])"
  by (simp add: exampleParse_def)

lemma partialOptionsText_nonempty: "partialOptionsText \<noteq> []"
  by (simp add: partialOptionsText_def ascii_def)

lemma exampleParse_partial:
  "exampleParse partialOptionsText =
     Inr (Obj [(ascii ''strings'', Obj [(ascii ''loginButton'', Str (ascii ''Sign in''))])])"
  by (simp add: exampleParse_def partialOptionsText_def ascii_def)

lemma encodeURIComponent_wellFormed:
  "encodeURIComponent r = Inr e \<Longrightarrow> isWellFormed r"
proof (induction r arbitrary: e rule: isWellFormed.induct)
  case 1
  then show ?case by simp
next
  case (2 c cs)
  show ?case
  proof (cases "isTrailingSurrogate c")
    case True
    with "2.prems" surrogate_escaped [of c] show ?thesis by simp
  next
    case nt: False
    show ?thesis
    proof (cases "isLeadingSurrogate c")
      case lead: True
      then have nu: "\<not> uriUnescaped c"
        by (simp add: surrogate_escaped)
      show ?thesis
      proof (cases cs)
        case Nil
        with nu nt lead "2.prems" show ?thesis by simp
      next
        case (Cons d ds)
        show ?thesis
        proof (cases "isTrailingSurrogate d")
          case True
          with nu nt lead Cons "2.prems" obtain rest where "encodeURIComponent ds = Inr rest"
            by (auto simp: andThen_Inr)
          from "2.IH"(1) [OF nt lead Cons this] nt lead Cons True show ?thesis by simp
        next
          case False
          with nu nt lead Cons "2.prems" show ?thesis by simp
        qed
      qed
    next
      case nl: False
      with nt "2.prems" obtain rest where "encodeURIComponent cs = Inr rest"
        by (auto simp: andThen_Inr split: if_splits)
      from "2.IH"(2) [OF nt nl this] nt nl show ?thesis by simp
    qed
  qed
qed

lemma encodeURIComponent_throws:
  "\<not> isWellFormed r \<Longrightarrow> encodeURIComponent r = Inl URIError"
proof (cases "encodeURIComponent r")
  case (Inl e)
  with encodeURIComponent_error [OF Inl] show ?thesis by simp
next
  case (Inr e)
  assume "\<not> isWellFormed r"
  with encodeURIComponent_wellFormed [OF Inr] show ?thesis by simp
qed

lemma examplePage_href: "location_href examplePage = ascii ''https://example.org/''"
  by (simp add: examplePage_def constructor_def getUserInfo_def)

section \<open>The redirect URLs\<close>

text \<open>
  C1, as the code has it. For every provider id \<open>p\<close> and every \<open>loginRedirect\<close> \<open>r\<close>
  that is well formed (no surrogate code unit without its partner), \<open>onLoginClicked(p)\<close>
  assigns to \<open>window.location.href\<close> the string
  \<open>'/.auth/login/' + p + '?post_login_redirect_uri=' + encodeURIComponent(r)\<close>, and the
  value of the query parameter consists of unreserved characters and \<open>%XX\<close> escapes
  only. For an \<open>r\<close> that is not well formed, \<open>encodeURIComponent\<close> throws URIError, so
  does the handler, and the location is not assigned.
\<close>

theorem onLoginClicked_redirect:
  "(isWellFormed (loginRedirect this) \<longrightarrow>
      (\<exists>q. encodeURIComponent (loginRedirect this) = Inr q
         \<and> list_all (\<lambda>c. uriUnescaped c \<or> c = 0x25) q
         \<and> onLoginClicked p this =
             Inr (this\<lparr>location_href :=
                    ascii ''/.auth/login/'' @ p @ ascii ''?post_login_redirect_uri='' @ q\<rparr>)))
   \<and> (\<not> isWellFormed (loginRedirect this) \<longrightarrow>
        encodeURIComponent (loginRedirect this) = Inl URIError
        \<and> onLoginClicked p this = Inl URIError
        \<and> perform a (CallOnLoginClicked p) this = this)"
proof -
  have eq: "onLoginClicked p this =
     (case encodeURIComponent (loginRedirect this) of
        Inl e \<Rightarrow> Inl e
      | Inr q \<Rightarrow>
          Inr (this\<lparr>location_href :=
                 ascii ''/.auth/login/'' @ p @ ascii ''?post_login_redirect_uri='' @ q\<rparr>))"
    by (simp add: onLoginClicked_def loginRoute_def ascii_def split: sum.splits)
  have "\<exists>q. encodeURIComponent (loginRedirect this) = Inr q
           \<and> list_all (\<lambda>c. uriUnescaped c \<or> c = 0x25) q
           \<and> onLoginClicked p this =
               Inr (this\<lparr>location_href :=
                      ascii ''/.auth/login/'' @ p @ ascii ''?post_login_redirect_uri='' @ q\<rparr>)"
    if "isWellFormed (loginRedirect this)"
  proof -
    from encodeURIComponent_defined [OF that] obtain q
      where q: "encodeURIComponent (loginRedirect this) = Inr q" by blast
    with eq encodeURIComponent_safe [OF q] show ?thesis by simp
  qed
  moreover have "encodeURIComponent (loginRedirect this) = Inl URIError
        \<and> onLoginClicked p this = Inl URIError
        \<and> perform a (CallOnLoginClicked p) this = this"
    if "\<not> isWellFormed (loginRedirect this)"
    using encodeURIComponent_throws [OF that] eq by (simp add: orUnchanged_def)
  ultimately show ?thesis by blast
qed

theorem onLoginClicked_redirect_witness:
  "isWellFormed (loginRedirect examplePage)
   \<and> onLoginClicked (ascii ''github'') examplePage
       = Inr (examplePage
               \<lparr>location_href := ascii ''/.auth/login/github?post_login_redirect_uri=%2F''\<rparr>)
   \<and> \<not> isWellFormed (loginRedirect (examplePage\<lparr>loginRedirect := [0xD800]\<rparr>))
   \<and> onLoginClicked (ascii ''aad'') (examplePage\<lparr>loginRedirect := [0xD800]\<rparr>) = Inl URIError"
proof -
  have r: "loginRedirect examplePage = ascii ''/''"
    by (simp add: examplePage_fields)
  have wf: "isWellFormed (loginRedirect examplePage)"
    by (simp add: r isWellFormed_slash)
  have nwf: "\<not> isWellFormed (loginRedirect (examplePage\<lparr>loginRedirect := [0xD800]\<rparr>))"
    by (simp add: isTrailingSurrogate_def isLeadingSurrogate_def)
  from onLoginClicked_redirect [of examplePage "ascii ''github''" exampleAssets] wf
  obtain q where q: "encodeURIComponent (loginRedirect examplePage) = Inr q"
    and "onLoginClicked (ascii ''github'') examplePage =
          Inr (examplePage\<lparr>location_href :=
                 ascii ''/.auth/login/'' @ ascii ''github'' @ ascii ''?post_login_redirect_uri='' @ q\<rparr>)"
    by blast
  moreover from q have "q = ascii ''%2F''"
    by (simp add: r encodeURIComponent_slash)
  ultimately have "onLoginClicked (ascii ''github'') examplePage =
      Inr (examplePage\<lparr>location_href := ascii ''/.auth/login/github?post_login_redirect_uri=%2F''\<rparr>)"
    by (simp add: ascii_def)
  moreover
  from onLoginClicked_redirect
         [of "examplePage\<lparr>loginRedirect := [0xD800]\<rparr>" "ascii ''aad''" exampleAssets] nwf
  have "onLoginClicked (ascii ''aad'') (examplePage\<lparr>loginRedirect := [0xD800]\<rparr>) = Inl URIError"
    by blast
  ultimately show ?thesis using wf nwf by blast
qed

theorem onLoginClicked_surrogate_counterexample:
  "onLoginClicked (ascii ''aad'') (examplePage\<lparr>loginRedirect := [0xD800]\<rparr>) = Inl URIError
   \<and> location_href
        (perform exampleAssets (CallOnLoginClicked (ascii ''aad''))
           (examplePage\<lparr>loginRedirect := [0xD800]\<rparr>)) = ascii ''https://example.org/''"
  by (simp add: onLoginClicked_def orUnchanged_def examplePage_href
      uriUnescaped_def isTrailingSurrogate_def isLeadingSurrogate_def)

text \<open>
  C2, as the code has it. For every \<open>logoutRedirect\<close> \<open>r\<close> that is well formed (no
  surrogate code unit without its partner), \<open>onLogoutClicked()\<close> assigns to
  \<open>window.location.href\<close> the string
  \<open>'/.auth/logout?post_logout_redirect_uri=' + encodeURIComponent(r)\<close>, the value of the
  query parameter consisting of unreserved characters and \<open>%XX\<close> escapes only. For an
  \<open>r\<close> that is not well formed, \<open>encodeURIComponent\<close> throws URIError, so does the
  handler, and the location is not assigned. The one button of the status branch,
  rendered when a user is present, runs \<open>onLogoutClicked()\<close> when clicked.
\<close>

theorem onLogoutClicked_redirect:
  "(isWellFormed (logoutRedirect this) \<longrightarrow>
      (\<exists>q. encodeURIComponent (logoutRedirect this) = Inr q
         \<and> list_all (\<lambda>c. uriUnescaped c \<or> c = 0x25) q
         \<and> onLogoutClicked this =
             Inr (this\<lparr>location_href :=
                    ascii ''/.auth/logout?post_logout_redirect_uri='' @ q\<rparr>)))
   \<and> (\<not> isWellFormed (logoutRedirect this) \<longrightarrow>
        encodeURIComponent (logoutRedirect this) = Inl URIError
        \<and> onLogoutClicked this = Inl URIError
        \<and> perform a CallOnLogoutClicked this = this)
   \<and> (ToBoolean (priv_userDetails this) \<longrightarrow>
        (\<exists>t b l. renderStatus a this = Inr t \<and> buttons t = [b] \<and> onclick b = Some l
           \<and> fire l this = onLogoutClicked this))"
proof -
  have eq: "onLogoutClicked this =
     (case encodeURIComponent (logoutRedirect this) of
        Inl e \<Rightarrow> Inl e
      | Inr q \<Rightarrow>
          Inr (this\<lparr>location_href := ascii ''/.auth/logout?post_logout_redirect_uri='' @ q\<rparr>))"
    by (simp add: onLogoutClicked_def logoutRoute_def ascii_def split: sum.splits)
  have "\<exists>q. encodeURIComponent (logoutRedirect this) = Inr q
         \<and> list_all (\<lambda>c. uriUnescaped c \<or> c = 0x25) q
         \<and> onLogoutClicked this =
             Inr (this\<lparr>location_href :=
                    ascii ''/.auth/logout?post_logout_redirect_uri='' @ q\<rparr>)"
    if "isWellFormed (logoutRedirect this)"
  proof -
    from encodeURIComponent_defined [OF that] obtain q
      where q: "encodeURIComponent (logoutRedirect this) = Inr q" by blast
    with eq encodeURIComponent_safe [OF q] show ?thesis by simp
  qed
  moreover have "encodeURIComponent (logoutRedirect this) = Inl URIError
        \<and> onLogoutClicked this = Inl URIError
        \<and> perform a CallOnLogoutClicked this = this"
    if "\<not> isWellFormed (logoutRedirect this)"
    using encodeURIComponent_throws [OF that] eq by (simp add: orUnchanged_def)
  moreover have "\<exists>t b l. renderStatus a this = Inr t \<and> buttons t = [b] \<and> onclick b = Some l
           \<and> fire l this = onLogoutClicked this"
    if "ToBoolean (priv_userDetails this)"
    using renderStatus_truthy [OF that, of a] by auto
  ultimately show ?thesis by blast
qed

theorem onLogoutClicked_redirect_witness:
  "ToBoolean (priv_userDetails loggedInPage)
   \<and> isWellFormed (logoutRedirect loggedInPage)
   \<and> onLogoutClicked loggedInPage =
       Inr (loggedInPage\<lparr>location_href := ascii ''/.auth/logout?post_logout_redirect_uri=%2F''\<rparr>)
   \<and> (\<exists>t b l. renderStatus exampleAssets loggedInPage = Inr t \<and> buttons t = [b]
         \<and> onclick b = Some l \<and> fire l loggedInPage = onLogoutClicked loggedInPage)
   \<and> \<not> isWellFormed (logoutRedirect (loggedInPage\<lparr>logoutRedirect := [0xD800]\<rparr>))
   \<and> onLogoutClicked (loggedInPage\<lparr>logoutRedirect := [0xD800]\<rparr>) = Inl URIError"
proof -
  have r: "logoutRedirect loggedInPage = ascii ''/''"
    by (simp add: loggedInPage_fields)
  have wf: "isWellFormed (logoutRedirect loggedInPage)"
    by (simp add: r isWellFormed_slash)
  have nwf: "\<not> isWellFormed (logoutRedirect (loggedInPage\<lparr>logoutRedirect := [0xD800]\<rparr>))"
    by (simp add: isTrailingSurrogate_def isLeadingSurrogate_def)
  have u: "ToBoolean (priv_userDetails loggedInPage)"
    by (simp add: loggedInPage_userDetails AuthDetails_value_def)
  note inst = onLogoutClicked_redirect [of loggedInPage exampleAssets]
  from inst wf obtain q where q: "encodeURIComponent (logoutRedirect loggedInPage) = Inr q"
    and "onLogoutClicked loggedInPage =
          Inr (loggedInPage\<lparr>location_href :=
                 ascii ''/.auth/logout?post_logout_redirect_uri='' @ q\<rparr>)"
    by blast
  moreover from q have "q = ascii ''%2F''"
    by (simp add: r encodeURIComponent_slash)
  ultimately have "onLogoutClicked loggedInPage =
       Inr (loggedInPage\<lparr>location_href := ascii ''/.auth/logout?post_logout_redirect_uri=%2F''\<rparr>)"
    by (simp add: ascii_def)
  moreover from inst u
  have "\<exists>t b l. renderStatus exampleAssets loggedInPage = Inr t \<and> buttons t = [b]
         \<and> onclick b = Some l \<and> fire l loggedInPage = onLogoutClicked loggedInPage"
    by blast
  moreover
  from onLogoutClicked_redirect [of "loggedInPage\<lparr>logoutRedirect := [0xD800]\<rparr>" exampleAssets] nwf
  have "onLogoutClicked (loggedInPage\<lparr>logoutRedirect := [0xD800]\<rparr>) = Inl URIError"
    by blast
  ultimately show ?thesis using u wf nwf by blast
qed

theorem onLogoutClicked_surrogate_counterexample:
  "onLogoutClicked (examplePage\<lparr>logoutRedirect := [0xD800]\<rparr>) = Inl URIError
   \<and> location_href
        (perform exampleAssets CallOnLogoutClicked (examplePage\<lparr>logoutRedirect := [0xD800]\<rparr>)) =
       ascii ''https://example.org/''"
  by (simp add: onLogoutClicked_def orUnchanged_def examplePage_href
      uriUnescaped_def isTrailingSurrogate_def isLeadingSurrogate_def)

section \<open>Rendering\<close>

text \<open>
  C3. \<open>render()\<close> dispatches on \<open>type\<close> to exactly one of three branches: the status
  branch if and only if \<open>type === 'status'\<close>, the logout branch if and only if
  \<open>type === 'logout'\<close>, and the login branch for every other value of \<open>type\<close>, of any
  kind. The three branches never return the same template, so the result tells which
  branch ran.
\<close>

theorem render_dispatch:
  "(render a this = renderStatus a this \<longleftrightarrow> type this = Str (ascii ''status''))
   \<and> (render a this = renderLogout a \<longleftrightarrow> type this = Str (ascii ''logout''))
   \<and> (render a this = renderLogin this \<longleftrightarrow>
        type this \<noteq> Str (ascii ''status'') \<and> type this \<noteq> Str (ascii ''logout''))"
proof -
  have ne: "Str (ascii ''status'') \<noteq> Str (ascii ''logout'')"
    by (simp add: ascii_def)
  have sl: "renderStatus a this \<noteq> renderLogout a"
    by (cases "ToBoolean (priv_userDetails this)")
       (auto simp: renderLogout_def renderStatus_falsy dest: renderStatus_truthy [of this a])
  have sn: "renderStatus a this \<noteq> renderLogin this"
    by (cases "ToBoolean (priv_userDetails this)")
       (auto simp: renderLogin_def get_userDetails_def renderStatus_falsy
             dest: renderStatus_truthy [of this a])
  have ln: "renderLogout a \<noteq> renderLogin this"
    by (simp add: renderLogin_def renderLogout_def)
  show ?thesis
    using ne sl sn ln sl [symmetric] sn [symmetric] ln [symmetric]
    by (auto simp: render_def)
qed

text \<open>
  C4, as the code has it. The login branch tests the truthiness of \<open>_userDetails\<close>, not
  whether it is defined. When \<open>_userDetails\<close> is truthy, \<open>renderLogin()\<close> returns only
  a slot element, with no button. When it is falsy (undefined, and also null, which
  \<open>/.auth/me\<close> answers for a visitor who is not signed in), \<open>renderLogin()\<close> returns
  exactly one login button per entry of \<open>options.providers\<close>, in order, each with that
  provider's colours as its style, its icon as the image, its label as the text, and a
  click listener that calls \<open>onLoginClicked\<close> with its id.
\<close>

theorem renderLogin_truthiness:
  "(ToBoolean (get_userDetails this) \<longrightarrow>
      renderLogin this = Inr (Html [Element ''slot'' [] None []])
      \<and> buttons (Html [Element ''slot'' [] None []]) = [])
   \<and> (\<not> ToBoolean (get_userDetails this) \<longrightarrow>
      (\<exists>t. renderLogin this = Inr t
         \<and> buttons t =
             map (\<lambda>p. Element ''button''
                         [(''class'', Static ''login''),
                          (''style'', StyleMap [(''backgroundColor'', color p), (''color'', textColor p)])]
                         (Some (LoginClick (id_provider p)))
                         [Element ''img'' [(''src'', Bound (icon p)), (''alt'', Static [])] None [],
                          Element ''span'' [] None [Child (Str (label p))]])
               (providers (options this))))
   \<and> (get_userDetails this = Undefined \<longrightarrow> \<not> ToBoolean (get_userDetails this))"
  using buttons_loginButtonTemplate [of "providers (options this)"]
  by (auto simp: renderLogin_def)

theorem renderLogin_truthiness_witness:
  "ToBoolean (get_userDetails loggedInPage)
   \<and> renderLogin loggedInPage = Inr (Html [Element ''slot'' [] None []])
   \<and> get_userDetails examplePage = Undefined
   \<and> \<not> ToBoolean (get_userDetails examplePage)
   \<and> (\<exists>t. renderLogin examplePage = Inr t \<and> length (buttons t) = 7
         \<and> map onclick (buttons t) =
             map (\<lambda>i. Some (LoginClick (ascii i)))
               [''aad'', ''github'', ''google'', ''facebook'', ''apple'', ''twitter'', ''oidc''])"
proof -
  have u: "ToBoolean (get_userDetails loggedInPage)"
    by (simp add: get_userDetails_def loggedInPage_userDetails AuthDetails_value_def)
  have n: "get_userDetails examplePage = Undefined"
    by (simp add: get_userDetails_def examplePage_def constructor_def getUserInfo_def)
  have o: "providers (options examplePage) = providers (defaultOptions exampleAssets)"
    by (simp add: examplePage_def constructor_def getUserInfo_def)
  from renderLogin_truthiness [of loggedInPage] u
  have "renderLogin loggedInPage = Inr (Html [Element ''slot'' [] None []])"
    by blast
  moreover from renderLogin_truthiness [of examplePage] n
  obtain t where "renderLogin examplePage = Inr t"
    and "buttons t =
             map (\<lambda>p. Element ''button''
                         [(''class'', Static ''login''),
                          (''style'', StyleMap [(''backgroundColor'', color p), (''color'', textColor p)])]
                         (Some (LoginClick (id_provider p)))
                         [Element ''img'' [(''src'', Bound (icon p)), (''alt'', Static [])] None [],
                          Element ''span'' [] None [Child (Str (label p))]])
               (providers (options examplePage))"
    by auto
  then have "\<exists>t. renderLogin examplePage = Inr t \<and> length (buttons t) = 7
         \<and> map onclick (buttons t) =
             map (\<lambda>i. Some (LoginClick (ascii i)))
               [''aad'', ''github'', ''google'', ''facebook'', ''apple'', ''twitter'', ''oidc'']"
    by (simp add: o defaultOptions_def authProvider_def)
  ultimately show ?thesis using u n by simp
qed

theorem renderLogin_null_counterexample:
  "priv_userDetails anonymousPage \<noteq> Undefined
   \<and> renderLogin anonymousPage \<noteq> Inr (Html [Element ''slot'' [] None []])
   \<and> (case renderLogin anonymousPage of Inl e \<Rightarrow> 0 | Inr t \<Rightarrow> length (buttons t)) = 7"
proof -
  have "length (concat (map buttons
          (map loginButtonTemplate (providers (defaultOptions exampleAssets))))) = 7"
    unfolding buttons_loginButtonTemplate by (simp add: defaultOptions_def)
  then show ?thesis
    by (simp add: renderLogin_def get_userDetails_def anonymousPage_userDetails
        anonymousPage_options)
qed

text \<open>
  C10, as the code has it. The status branch tests the truthiness of \<open>_userDetails\<close>.
  When it is falsy (undefined, and also null) \<open>renderStatus()\<close> renders only the person
  icon; the text \<open>Logged in as\<close> and the logout button are rendered if and only if
  \<open>_userDetails\<close> is truthy. \<open>renderStatus()\<close> never throws.
\<close>

theorem renderStatus_truthiness:
  "\<exists>t. renderStatus a this = Inr t
     \<and> (if ToBoolean (priv_userDetails this)
        then texts t = [''Logged in as '', ''Logout'']
           \<and> buttons t = [Element ''button'' [] (Some LogoutClick) [Text ''Logout'']]
        else t = Html [Element ''section'' [(''class'', Static ''auth-status'')] None
                   [Element ''span'' [(''class'', Static ''login-icon'')] None
                      [UnsafeSVG (personSvg a)],
                    Nothing]]
           \<and> texts t = [] \<and> buttons t = [])"
proof (cases "ToBoolean (priv_userDetails this)")
  case True
  from renderStatus_truthy [OF True, of a] True show ?thesis by auto
next
  case False
  from renderStatus_falsy [OF False, of a] False show ?thesis by simp
qed

theorem renderStatus_truthiness_witness:
  "(\<exists>t. renderStatus exampleAssets loggedInPage = Inr t
      \<and> texts t = [''Logged in as '', ''Logout'']
      \<and> buttons t = [Element ''button'' [] (Some LogoutClick) [Text ''Logout'']])
   \<and> (\<exists>t. renderStatus exampleAssets examplePage = Inr t \<and> texts t = [] \<and> buttons t = [])"
proof -
  have u: "ToBoolean (priv_userDetails loggedInPage)"
    by (simp add: loggedInPage_userDetails AuthDetails_value_def)
  have n: "\<not> ToBoolean (priv_userDetails examplePage)"
    by (simp add: examplePage_def constructor_def getUserInfo_def)
  from renderStatus_truthiness [of exampleAssets loggedInPage] u
    renderStatus_truthiness [of exampleAssets examplePage] n
  show ?thesis by auto
qed

theorem renderStatus_null_counterexample:
  "priv_userDetails anonymousPage \<noteq> Undefined
   \<and> renderStatus exampleAssets anonymousPage =
       Inr (Html [Element ''section'' [(''class'', Static ''auth-status'')] None
         [Element ''span'' [(''class'', Static ''login-icon'')] None
            [UnsafeSVG (personSvg exampleAssets)],
          Nothing]])"
  by (simp add: renderStatus_def anonymousPage_userDetails)

section \<open>The user-info request over the component's lifetime\<close>

text \<open>
  C5. On construction the component calls \<open>fetch('/.auth/me')\<close>. When the request is
  fulfilled with JSON payload \<open>p\<close>, the stored \<open>_userDetails\<close> becomes
  \<open>p?.clientPrincipal\<close> as it is, whatever operations ran before or run after, and
  \<open>loaded\<close> becomes true. For an object payload that is the value of its
  \<open>clientPrincipal\<close> property, unchanged; a details object of the declared type is stored
  with every field as delivered.
\<close>

theorem constructor_stores_clientPrincipal:
  "fetched (constructor a href) = [ascii ''/.auth/me'']
   \<and> (\<exists>v. optionalChain p (ascii ''clientPrincipal'') = Inr v
        \<and> priv_userDetails (lifetime a href before (Some (Fulfilled (Fulfilled p), after))) = v
        \<and> loaded (lifetime a href before (Some (Fulfilled (Fulfilled p), after))) = True)
   \<and> priv_userDetails (constructor_then (Fulfilled (Fulfilled (Obj kvs))) this) =
       (case map_of kvs (ascii ''clientPrincipal'') of None \<Rightarrow> Undefined | Some v \<Rightarrow> v)
   \<and> priv_userDetails
        (constructor_then
           (Fulfilled (Fulfilled (Obj [(ascii ''clientPrincipal'', AuthDetails_value d)]))) this) =
       AuthDetails_value d"
proof -
  from getUserInfo_resume_payload [of p] obtain v where
    v: "optionalChain p (ascii ''clientPrincipal'') = Inr v"
       "getUserInfo_resume (Fulfilled (Fulfilled p)) = Fulfilled v"
    by blast
  from constructor_then_fulfilled [OF v(2)] v(1)
  have "\<exists>v. optionalChain p (ascii ''clientPrincipal'') = Inr v
        \<and> priv_userDetails (lifetime a href before (Some (Fulfilled (Fulfilled p), after))) = v
        \<and> loaded (lifetime a href before (Some (Fulfilled (Fulfilled p), after))) = True"
    by (simp add: lifetime_settled)
  moreover have "priv_userDetails (constructor_then (Fulfilled (Fulfilled (Obj kvs))) this) =
       (case map_of kvs (ascii ''clientPrincipal'') of None \<Rightarrow> Undefined | Some v \<Rightarrow> v)"
    by (simp add: constructor_then_def getUserInfo_resume_def optionalChain_def
        split: option.splits)
  moreover have "priv_userDetails
        (constructor_then
           (Fulfilled (Fulfilled (Obj [(ascii ''clientPrincipal'', AuthDetails_value d)]))) this) =
       AuthDetails_value d"
    by (simp add: constructor_then_def getUserInfo_resume_def optionalChain_def)
  ultimately show ?thesis
    by (simp add: constructor_state)
qed

text \<open>
  C6, as the code has it. The component does not poll: over any lifetime (construction,
  any operations, the request settling in any way or not at all, any operations after)
  it calls \<open>fetch\<close> exactly once, for \<open>/.auth/me\<close>, in the constructor.
\<close>

theorem single_fetch:
  "fetched (lifetime a href before settling) = [ascii ''/.auth/me'']
   \<and> length (fetched (lifetime a href before settling)) = 1"
  by (simp add: fetched_lifetime)

theorem polling_counterexample:
  "\<not> 1 < length (fetched (lifetime exampleAssets (ascii ''https://example.org/'')
       [CallRender, ClickButton 0]
       (Some (Fulfilled (Fulfilled (Obj [(ascii ''clientPrincipal'', AuthDetails_value exampleDetails)])),
              [CallRender, SetType (Str (ascii ''status'')), CallRender, ReadUserDetails,
               ClickButton 0, CallRender]))))"
  by (simp add: fetched_lifetime)

text \<open>
  C7. No operation of the component writes \<open>_userDetails\<close> or changes anything in it:
  after any sequence of renderings, clicks, calls of \<open>onLoginClicked\<close> and
  \<open>onLogoutClicked\<close>, reads of the getter and writes of the public properties, its value
  is what the fetch callback stored; the getter returns it as it is.
\<close>

theorem userDetails_unchanged:
  "priv_userDetails (run a ops this) = priv_userDetails this
   \<and> priv_userDetails (lifetime a href before (Some (r, after))) =
       priv_userDetails (constructor_then r (run a before (constructor a href)))
   \<and> get_userDetails this = priv_userDetails this
   \<and> (case onLoginClicked p this of
         Inl e \<Rightarrow> True | Inr this' \<Rightarrow> priv_userDetails this' = priv_userDetails this)
   \<and> (case onLogoutClicked this of
         Inl e \<Rightarrow> True | Inr this' \<Rightarrow> priv_userDetails this' = priv_userDetails this)
   \<and> (case clickButton a n this of
         Inl e \<Rightarrow> True | Inr this' \<Rightarrow> priv_userDetails this' = priv_userDetails this)"
proof -
  have "case onLoginClicked p this of
         Inl e \<Rightarrow> True | Inr this' \<Rightarrow> priv_userDetails this' = priv_userDetails this"
    by (auto split: sum.splits dest: onLoginClicked_frame)
  moreover have "case onLogoutClicked this of
         Inl e \<Rightarrow> True | Inr this' \<Rightarrow> priv_userDetails this' = priv_userDetails this"
    by (auto split: sum.splits dest: onLogoutClicked_frame)
  moreover have "case clickButton a n this of
         Inl e \<Rightarrow> True | Inr this' \<Rightarrow> priv_userDetails this' = priv_userDetails this"
    by (auto split: sum.splits dest: clickButton_frame)
  ultimately show ?thesis
    by (simp add: run_frame lifetime_settled get_userDetails_def)
qed

theorem userDetails_unchanged_witness:
  "priv_userDetails
     (run exampleAssets
        [CallRender, CallRenderStatus, CallRenderLogin, CallRenderLogout,
         CallOnLoginClicked (ascii ''github''), CallOnLogoutClicked, ReadUserDetails,
         SetType (Str (ascii ''status'')), ClickButton 0]
        loggedInPage) = AuthDetails_value exampleDetails"
proof -
  from userDetails_unchanged
         [of exampleAssets
             "[CallRender, CallRenderStatus, CallRenderLogin, CallRenderLogout,
               CallOnLoginClicked (ascii ''github''), CallOnLogoutClicked, ReadUserDetails,
               SetType (Str (ascii ''status'')), ClickButton 0]"
             loggedInPage]
  have "priv_userDetails
     (run exampleAssets
        [CallRender, CallRenderStatus, CallRenderLogin, CallRenderLogout,
         CallOnLoginClicked (ascii ''github''), CallOnLogoutClicked, ReadUserDetails,
         SetType (Str (ascii ''status'')), ClickButton 0]
        loggedInPage) = priv_userDetails loggedInPage"
    by (rule conjunct1)
  then show ?thesis
    by (simp only: loggedInPage_userDetails)
qed

text \<open>
  C9. If the request is fulfilled and the payload is null or has no \<open>clientPrincipal\<close>
  property, \<open>getUserInfo\<close> is fulfilled with undefined, without throwing, and the
  component is loaded and renders as signed out (the icon alone in the status branch,
  the provider buttons in the login branch). If \<open>fetch\<close> or \<open>response.json()\<close> rejects,
  so does \<open>getUserInfo\<close>; nothing handles the rejection, the callback does not run, and
  \<open>_userDetails\<close> stays undefined and \<open>loaded\<close> false whatever operations follow.
\<close>

theorem getUserInfo_without_principal:
  "((p = Null \<or> \<not> hasProperty p (ascii ''clientPrincipal'')) \<longrightarrow>
      getUserInfo_resume (Fulfilled (Fulfilled p)) = Fulfilled Undefined
      \<and> loaded (lifetime a href before (Some (Fulfilled (Fulfilled p), after))) = True
      \<and> priv_userDetails (lifetime a href before (Some (Fulfilled (Fulfilled p), after))) = Undefined
      \<and> renderStatus a (lifetime a href before (Some (Fulfilled (Fulfilled p), after))) =
          Inr (Html [Element ''section'' [(''class'', Static ''auth-status'')] None
            [Element ''span'' [(''class'', Static ''login-icon'')] None [UnsafeSVG (personSvg a)],
             Nothing]])
      \<and> renderLogin (lifetime a href before (Some (Fulfilled (Fulfilled p), after))) =
          Inr (Html [Element ''section'' [(''class'', Static ''auth-login'')] None
            (map loginButtonTemplate
               (providers (options (lifetime a href before (Some (Fulfilled (Fulfilled p), after))))))]))
   \<and> ((r = Rejected \<or> r = Fulfilled Rejected) \<longrightarrow>
      getUserInfo_resume r = Rejected
      \<and> constructor_then r this = this
      \<and> priv_userDetails (lifetime a href before (Some (r, after))) = Undefined
      \<and> loaded (lifetime a href before (Some (r, after))) = False)"
proof -
  let ?L = "lifetime a href before (Some (Fulfilled (Fulfilled p), after))"
  have A: "getUserInfo_resume (Fulfilled (Fulfilled p)) = Fulfilled Undefined
      \<and> loaded ?L = True \<and> priv_userDetails ?L = Undefined
      \<and> renderStatus a ?L =
          Inr (Html [Element ''section'' [(''class'', Static ''auth-status'')] None
            [Element ''span'' [(''class'', Static ''login-icon'')] None [UnsafeSVG (personSvg a)],
             Nothing]])
      \<and> renderLogin ?L =
          Inr (Html [Element ''section'' [(''class'', Static ''auth-login'')] None
            (map loginButtonTemplate (providers (options ?L)))])"
    if "p = Null \<or> \<not> hasProperty p (ascii ''clientPrincipal'')"
  proof -
    from that have "optionalChain p (ascii ''clientPrincipal'') = Inr Undefined"
      by (auto intro: optionalChain_absent)
    then have g: "getUserInfo_resume (Fulfilled (Fulfilled p)) = Fulfilled Undefined"
      by (simp add: getUserInfo_resume_def)
    from constructor_then_fulfilled [OF g]
    have s: "loaded ?L = True" "priv_userDetails ?L = Undefined"
      by (simp_all add: lifetime_settled)
    then have "\<not> ToBoolean (priv_userDetails ?L)" by simp
    from renderStatus_falsy [OF this, of a] g s show ?thesis
      by (simp add: renderLogin_def get_userDetails_def)
  qed
  have B: "getUserInfo_resume r = Rejected
      \<and> constructor_then r this = this
      \<and> priv_userDetails (lifetime a href before (Some (r, after))) = Undefined
      \<and> loaded (lifetime a href before (Some (r, after))) = False"
    if "r = Rejected \<or> r = Fulfilled Rejected"
  proof -
    from that have g: "getUserInfo_resume r = Rejected"
      by (auto simp: getUserInfo_resume_def)
    then show ?thesis
      by (simp add: lifetime_settled constructor_then_rejected run_frame constructor_state)
  qed
  from A B show ?thesis by blast
qed

theorem getUserInfo_without_principal_witness:
  "(Null = Null \<or> \<not> hasProperty Null (ascii ''clientPrincipal''))
   \<and> getUserInfo_resume (Fulfilled (Fulfilled Null)) = Fulfilled Undefined
   \<and> loaded (lifetime exampleAssets (ascii ''https://example.org/'') [CallRender]
        (Some (Fulfilled (Fulfilled Null), [CallRender]))) = True
   \<and> \<not> hasProperty (Obj [(ascii ''error'', Str (ascii ''none''))]) (ascii ''clientPrincipal'')
   \<and> priv_userDetails (lifetime exampleAssets (ascii ''https://example.org/'') [CallRender]
        (Some (Fulfilled (Fulfilled (Obj [(ascii ''error'', Str (ascii ''none''))])),
               [CallRender]))) = Undefined
   \<and> getUserInfo_resume (Fulfilled Rejected) = Rejected
   \<and> loaded (lifetime exampleAssets (ascii ''https://example.org/'') [CallRender]
        (Some (Rejected, [CallRender, ClickButton 0, CallRender]))) = False"
proof -
  let ?href = "ascii ''https://example.org/''"
  let ?obj = "Obj [(ascii ''error'', Str (ascii ''none''))]"
  have h: "\<not> hasProperty ?obj (ascii ''clientPrincipal'')"
    by (simp add: ascii_def)
  note null = getUserInfo_without_principal
      [of Null exampleAssets ?href "[CallRender]" "[CallRender]" Rejected examplePage,
       THEN conjunct1, rule_format]
  note obj = getUserInfo_without_principal
      [of ?obj exampleAssets ?href "[CallRender]" "[CallRender]" Rejected examplePage,
       THEN conjunct1, rule_format, OF disjI2, OF h]
  note json = getUserInfo_without_principal
      [of Null exampleAssets ?href "[CallRender]" "[CallRender]" "Fulfilled Rejected" examplePage,
       THEN conjunct2, rule_format]
  note rej = getUserInfo_without_principal
      [of Null exampleAssets ?href "[CallRender]" "[CallRender, ClickButton 0, CallRender]"
          Rejected examplePage,
       THEN conjunct2, rule_format]
  have 1: "getUserInfo_resume (Fulfilled (Fulfilled Null)) = Fulfilled Undefined"
    using null by simp
  have 2: "loaded (lifetime exampleAssets ?href [CallRender]
        (Some (Fulfilled (Fulfilled Null), [CallRender]))) = True"
    using null by simp
  have 3: "priv_userDetails (lifetime exampleAssets ?href [CallRender]
        (Some (Fulfilled (Fulfilled ?obj), [CallRender]))) = Undefined"
    using obj by simp
  have 4: "getUserInfo_resume (Fulfilled Rejected) = Rejected"
    using json by simp
  have 5: "loaded (lifetime exampleAssets ?href [CallRender]
        (Some (Rejected, [CallRender, ClickButton 0, CallRender]))) = False"
    using rej by simp
  from h 1 2 3 4 5 show ?thesis by (simp only: simp_thms)
qed

section \<open>The options attribute\<close>

text \<open>
  C8. The converter of the \<open>options\<close> attribute merges shallowly over the defaults: for
  every attribute value \<open>v\<close> (a string or null) the result is
  \<open>{...defaultOptions, ...JSON.parse(v || '{}')}\<close>, an exception of \<open>JSON.parse\<close>
  propagating: each property of the result is the parsed value's own property of that
  name if it has one, and the default otherwise. So a null or empty attribute gives
  exactly the defaults, and a JSON object whose \<open>strings\<close> has only \<open>loginButton\<close>
  replaces the whole of \<open>strings\<close>: the result has no \<open>strings.logoutButton\<close>, which the
  default has, and keeps the default \<open>providers\<close>.
\<close>

theorem converter_shallow_merge:
  "converter JSON_parse a value =
     (case JSON_parse (case value of None \<Rightarrow> ascii ''{}'' | Some s \<Rightarrow> if s = [] then ascii ''{}'' else s) of
        Inl e \<Rightarrow> Inl e
      | Inr parsed \<Rightarrow>
          Inr (Obj (CopyDataProperties (ownProperties (AuthOptions_value (defaultOptions a))) parsed)))
   \<and> (\<forall>k. map_of (CopyDataProperties (ownProperties (AuthOptions_value (defaultOptions a))) parsed) k =
          (case map_of (rev (ownProperties parsed)) k of
             Some x \<Rightarrow> Some x
           | None \<Rightarrow> map_of (ownProperties (AuthOptions_value (defaultOptions a))) k))
   \<and> (JSON_parse (ascii ''{}'') = Inr (Obj []) \<and> (value = None \<or> value = Some []) \<longrightarrow>
        converter JSON_parse a value = Inr (AuthOptions_value (defaultOptions a)))
   \<and> (text \<noteq> [] \<and> JSON_parse text = Inr (Obj [(ascii ''strings'', Obj [(ascii ''loginButton'', Str s)])]) \<longrightarrow>
        converter JSON_parse a (Some text) =
          Inr (Obj [(ascii ''strings'', Obj [(ascii ''loginButton'', Str s)]),
                    (ascii ''providers'', Arr (map AuthProvider_value (providers (defaultOptions a))))])
        \<and> \<not> hasProperty (Obj [(ascii ''loginButton'', Str s)]) (ascii ''logoutButton'')
        \<and> hasProperty (Obj (ownProperties (AuthOptions_value (defaultOptions a))))  (ascii ''strings'')
        \<and> (\<forall>d. map_of (ownProperties (AuthOptions_value (defaultOptions a))) (ascii ''strings'') = Some d
              \<longrightarrow> hasProperty d (ascii ''logoutButton'')))"
proof -
  have B: "converter JSON_parse a value = Inr (AuthOptions_value (defaultOptions a))"
    if "JSON_parse (ascii ''{}'') = Inr (Obj [])" "value = None \<or> value = Some []"
    using that
    by (auto simp: converter_eq CopyDataProperties_empty AuthOptions_value_def)
  have C: "converter JSON_parse a (Some text) =
          Inr (Obj [(ascii ''strings'', Obj [(ascii ''loginButton'', Str s)]),
                    (ascii ''providers'', Arr (map AuthProvider_value (providers (defaultOptions a))))])"
    if "text \<noteq> []" "JSON_parse text = Inr (Obj [(ascii ''strings'', Obj [(ascii ''loginButton'', Str s)])])"
    using that by (simp add: converter_eq CopyDataProperties_strings)
  have D: "\<not> hasProperty (Obj [(ascii ''loginButton'', Str s)]) (ascii ''logoutButton'')"
    by (simp add: ascii_def)
  have E: "hasProperty (Obj (ownProperties (AuthOptions_value (defaultOptions a))))  (ascii ''strings'')"
    by (simp add: AuthOptions_value_def)
  have F: "\<forall>d. map_of (ownProperties (AuthOptions_value (defaultOptions a))) (ascii ''strings'') = Some d
              \<longrightarrow> hasProperty d (ascii ''logoutButton'')"
    by (simp add: AuthOptions_value_def)
  from B C D E F show ?thesis
    by (simp only: converter_eq map_of_CopyDataProperties simp_thms) blast
qed

theorem converter_shallow_merge_witness:
  "exampleParse (ascii ''{}'') = Inr (Obj [])
   \<and> converter exampleParse exampleAssets None = Inr (AuthOptions_value (defaultOptions exampleAssets))
   \<and> converter exampleParse exampleAssets (Some []) = Inr (AuthOptions_value (defaultOptions exampleAssets))
   \<and> partialOptionsText \<noteq> []
   \<and> converter exampleParse exampleAssets (Some partialOptionsText) =
          Inr (Obj [(ascii ''strings'', Obj [(ascii ''loginButton'', Str (ascii ''Sign in''))]),
                    (ascii ''providers'',
                     Arr (map AuthProvider_value (providers (defaultOptions exampleAssets))))])"
proof -
  note none = converter_shallow_merge [of exampleParse exampleAssets None _ partialOptionsText "ascii ''Sign in''",
      THEN conjunct2, THEN conjunct2]
  note empty = converter_shallow_merge [of exampleParse exampleAssets "Some []" _ partialOptionsText "ascii ''Sign in''",
      THEN conjunct2, THEN conjunct2, THEN conjunct1]
  have 1: "converter exampleParse exampleAssets None = Inr (AuthOptions_value (defaultOptions exampleAssets))"
    using none exampleParse_empty by blast
  have 2: "converter exampleParse exampleAssets (Some []) = Inr (AuthOptions_value (defaultOptions exampleAssets))"
    using empty exampleParse_empty by blast
  have 3: "converter exampleParse exampleAssets (Some partialOptionsText) =
          Inr (Obj [(ascii ''strings'', Obj [(ascii ''loginButton'', Str (ascii ''Sign in''))]),
                    (ascii ''providers'',
                     Arr (map AuthProvider_value (providers (defaultOptions exampleAssets))))])"
    using none exampleParse_partial partialOptionsText_nonempty by blast
  from 1 2 3 exampleParse_empty partialOptionsText_nonempty show ?thesis by blast
qed

end
